theory Spec2Isabelle
  imports Main
begin

section \<open>Steel mill slab design: the waste profile and the evaluator\<close>

text \<open>
  The development follows \<^verbatim>\<open>steel_mill_slab_design_problem.py\<close>. Python integers are
  unbounded and are modelled by \<^typ>\<open>int\<close>. The penalty unit is the float literal
  \<^verbatim>\<open>1e6\<close>; every product and sum the evaluator forms with it is an integer value, which a
  double represents exactly while its magnitude stays below \<open>2^53\<close>, so penalties are
  modelled by the integers they denote. Every way the Python can stop without a value
  (\<^verbatim>\<open>sys.exit(1)\<close>, an \<^verbatim>\<open>IndexError\<close>, a \<^verbatim>\<open>StopIteration\<close> of the token iterator) is a
  value of the type \<open>error\<close>, and a function that can stop so returns \<open>error + 'a\<close>.
\<close>

subsection \<open>Python lists\<close>

datatype error = SysExit int | IndexError | StopIteration

text \<open>Python accepts the indices \<open>-len \<le> i < len\<close>; a negative one counts from the end.\<close>

definition valid_index :: "'a list \<Rightarrow> int \<Rightarrow> bool" where
  "valid_index xs i \<longleftrightarrow> - int (length xs) \<le> i \<and> i < int (length xs)"

definition py_pos :: "'a list \<Rightarrow> int \<Rightarrow> nat" where
  "py_pos xs i = nat (if i < 0 then i + int (length xs) else i)"

definition py_getitem :: "'a list \<Rightarrow> int \<Rightarrow> error + 'a" where
  "py_getitem xs i = (if valid_index xs i then Inr (xs ! py_pos xs i) else Inl IndexError)"

definition py_setitem :: "'a list \<Rightarrow> int \<Rightarrow> 'a \<Rightarrow> error + 'a list" where
  "py_setitem xs i v = (if valid_index xs i then Inr (xs[py_pos xs i := v]) else Inl IndexError)"

text \<open>\<^verbatim>\<open>range(a, b)\<close> is the list \<open>a, a+1, ..., b-1\<close>, empty when \<open>b \<le> a\<close>.\<close>

definition py_range :: "int \<Rightarrow> int \<Rightarrow> int list" where
  "py_range a b = [a..b - 1]"

subsection \<open>The waste profile builder\<close>

text \<open>
  The inner loop \<^verbatim>\<open>for content in range(prev_size + 1, size): waste_for_content[content] = size - content\<close>,
  over the list of content values still to be written.
\<close>

fun fill_waste :: "int list \<Rightarrow> int \<Rightarrow> int list \<Rightarrow> error + int list" where
  "fill_waste waste sz [] = Inr waste"
| "fill_waste waste sz (content # rest) =
     (case py_setitem waste content (sz - content) of
        Inl e \<Rightarrow> Inl e
      | Inr waste' \<Rightarrow> fill_waste waste' sz rest)"

text \<open>
  The outer loop \<^verbatim>\<open>for size in slab_sizes\<close>, with the table and \<^verbatim>\<open>prev_size\<close> as state.
  A size below its predecessor ends the process with exit status 1.
\<close>

fun waste_loop :: "int list \<Rightarrow> int \<Rightarrow> int list \<Rightarrow> error + int list" where
  "waste_loop waste prev_size [] = Inr waste"
| "waste_loop waste prev_size (sz # rest) =
     (if sz < prev_size then Inl (SysExit 1)
      else case fill_waste waste sz (py_range (prev_size + 1) sz) of
             Inl e \<Rightarrow> Inl e
           | Inr waste' \<Rightarrow> waste_loop waste' sz rest)"

definition pre_compute_waste_for_content :: "int list \<Rightarrow> int \<Rightarrow> error + int list" where
  "pre_compute_waste_for_content slab_sizes sum_size_orders =
     waste_loop (replicate (nat (sum_size_orders + 1)) 0) 0 slab_sizes"

subsection \<open>The problem instance and its constructor\<close>

text \<open>
  The fields of \<^verbatim>\<open>SteelMillSlabDesignProblem\<close> that \<^verbatim>\<open>__init__\<close> sets from the tokens of the
  instance file. Reading the file (\<^verbatim>\<open>read_integers\<close>) is input/output and stays outside;
  the constructor is modelled from the token list on.
\<close>

record problem =
  nb_slab_sizes :: int
  slab_sizes :: "int list"
  max_size :: int
  nb_colors :: int
  nb_orders :: int
  nb_slabs :: int
  quantities_data :: "int list"
  colors_data :: "int list"
  sum_size_orders :: int
  waste_for_content :: "int list"
  nb_colors_max_slab :: int

text \<open>\<^verbatim>\<open>next(it)\<close>: the next token and the rest of the iterator, or \<^verbatim>\<open>StopIteration\<close>.\<close>

fun next_token :: "int list \<Rightarrow> error + (int \<times> int list)" where
  "next_token [] = Inl StopIteration"
| "next_token (t # it) = Inr (t, it)"

text \<open>\<^verbatim>\<open>[int(next(it)) for _ in range(n)]\<close>, for the \<open>nat n\<close> rounds that \<^verbatim>\<open>range(n)\<close> has.\<close>

fun read_sizes :: "nat \<Rightarrow> int list \<Rightarrow> error + (int list \<times> int list)" where
  "read_sizes 0 it = Inr ([], it)"
| "read_sizes (Suc n) it =
     (case next_token it of
        Inl e \<Rightarrow> Inl e
      | Inr (t, it1) \<Rightarrow>
          (case read_sizes n it1 of
             Inl e \<Rightarrow> Inl e
           | Inr (ts, it2) \<Rightarrow> Inr (t # ts, it2)))"

text \<open>
  The loop that reads the orders; its state is \<^verbatim>\<open>quantities_data\<close>, \<^verbatim>\<open>colors_data\<close> and
  \<^verbatim>\<open>sum_size_orders\<close>.
\<close>

fun read_orders ::
  "nat \<Rightarrow> int list \<Rightarrow> int list \<Rightarrow> int \<Rightarrow> int list \<Rightarrow> error + (int list \<times> int list \<times> int)" where
  "read_orders 0 quantities colors acc it = Inr (quantities, colors, acc)"
| "read_orders (Suc n) quantities colors acc it =
     (case next_token it of
        Inl e \<Rightarrow> Inl e
      | Inr (qty, it1) \<Rightarrow>
          (case next_token it1 of
             Inl e \<Rightarrow> Inl e
           | Inr (col, it2) \<Rightarrow>
               read_orders n (quantities @ [qty]) (colors @ [col]) (acc + qty) it2))"

definition init :: "int list \<Rightarrow> error + problem" where
  "init tokens =
     (case next_token tokens of
        Inl e \<Rightarrow> Inl e
      | Inr (n_sizes, it1) \<Rightarrow>
     (case read_sizes (nat n_sizes) it1 of
        Inl e \<Rightarrow> Inl e
      | Inr (sizes, it2) \<Rightarrow>
     (case py_getitem sizes (- 1) of
        Inl e \<Rightarrow> Inl e
      | Inr largest \<Rightarrow>
     (case next_token it2 of
        Inl e \<Rightarrow> Inl e
      | Inr (n_colors, it3) \<Rightarrow>
     (case next_token it3 of
        Inl e \<Rightarrow> Inl e
      | Inr (n_orders, it4) \<Rightarrow>
     (case read_orders (nat n_orders) [] [] 0 it4 of
        Inl e \<Rightarrow> Inl e
      | Inr (quantities, colors, sum_qty) \<Rightarrow>
     (case pre_compute_waste_for_content sizes sum_qty of
        Inl e \<Rightarrow> Inl e
      | Inr waste \<Rightarrow>
          Inr \<lparr>nb_slab_sizes = n_sizes, slab_sizes = sizes, max_size = largest,
               nb_colors = n_colors, nb_orders = n_orders, nb_slabs = n_orders,
               quantities_data = quantities, colors_data = colors,
               sum_size_orders = sum_qty, waste_for_content = waste,
               nb_colors_max_slab = 2\<rparr>)))))))"

subsection \<open>The evaluator\<close>

text \<open>The three accumulators of \<^verbatim>\<open>evaluate_solution\<close>.\<close>

record eval_state =
  penalty :: int
  used_slab_waste :: int
  orders_in_candidate :: "int list"

text \<open>\<^verbatim>\<open>xs[i] for i in slab\<close>: the first index out of range raises.\<close>

fun getitems :: "int list \<Rightarrow> int list \<Rightarrow> error + int list" where
  "getitems xs [] = Inr []"
| "getitems xs (i # rest) =
     (case py_getitem xs i of
        Inl e \<Rightarrow> Inl e
      | Inr v \<Rightarrow>
          (case getitems xs rest of
             Inl e \<Rightarrow> Inl e
           | Inr vs \<Rightarrow> Inr (v # vs)))"

text \<open>
  One round of \<^verbatim>\<open>for slab in candidate\<close>. The orders of the slab are recorded before the
  test for an empty slab; the colour check, the capacity check and the waste follow in
  the order of the source.
\<close>

definition process_slab :: "problem \<Rightarrow> eval_state \<Rightarrow> int list \<Rightarrow> error + eval_state" where
  "process_slab p st slab =
     (let st1 = st\<lparr>orders_in_candidate := orders_in_candidate st @ slab\<rparr> in
      if length slab = 0 then Inr st1
      else
        (case getitems (colors_data p) slab of
           Inl e \<Rightarrow> Inl e
         | Inr cols \<Rightarrow>
        (let n_colors = int (card (set cols));
             pen1 = (if n_colors > nb_colors_max_slab p
                     then penalty st1 + 1000000 * (n_colors - nb_colors_max_slab p)
                     else penalty st1)
         in
        (case getitems (quantities_data p) slab of
           Inl e \<Rightarrow> Inl e
         | Inr qs \<Rightarrow>
        (let content = sum_list qs;
             pen2 = (if content > max_size p
                     then pen1 + 1000000 * (content - max_size p)
                     else pen1)
         in
        (case (if content < int (length (waste_for_content p))
               then py_getitem (waste_for_content p) content
               else Inr (max_size p - content)) of
           Inl e \<Rightarrow> Inl e
         | Inr waste \<Rightarrow>
             Inr (st1\<lparr>penalty := pen2,
                      used_slab_waste := used_slab_waste st1 + waste\<rparr>)))))))"

fun eval_loop :: "problem \<Rightarrow> eval_state \<Rightarrow> int list list \<Rightarrow> error + eval_state" where
  "eval_loop p st [] = Inr st"
| "eval_loop p st (slab # rest) =
     (case process_slab p st slab of
        Inl e \<Rightarrow> Inl e
      | Inr st' \<Rightarrow> eval_loop p st' rest)"

text \<open>
  After the loop the set of recorded orders is compared with \<^verbatim>\<open>set(range(nb_orders))\<close>;
  the result is \<^verbatim>\<open>used_slab_waste + penalty\<close>.
\<close>

definition evaluate_solution :: "problem \<Rightarrow> int list list \<Rightarrow> error + int" where
  "evaluate_solution p candidate =
     (case eval_loop p \<lparr>penalty = 0, used_slab_waste = 0, orders_in_candidate = []\<rparr> candidate of
        Inl e \<Rightarrow> Inl e
      | Inr st \<Rightarrow>
          (let pen = (if set (orders_in_candidate st) \<noteq> set (py_range 0 (nb_orders p))
                      then penalty st + 1000000
                      else penalty st)
           in Inr (used_slab_waste st + pen)))"

subsection \<open>What one slab contributes\<close>

text \<open>
  The expressions of the loop body, as functions of the slab, for a slab whose indices
  are all accepted by Python: the content \<^verbatim>\<open>sum(self.quantities_data[i] for i in slab)\<close>,
  the colour set \<^verbatim>\<open>{self.colors_data[i] for i in slab}\<close>, the two penalty increments and
  the waste with its fallback branch.
\<close>

definition slab_content :: "problem \<Rightarrow> int list \<Rightarrow> int" where
  "slab_content p slab = (\<Sum>i\<leftarrow>slab. quantities_data p ! py_pos (quantities_data p) i)"

definition slab_colors :: "problem \<Rightarrow> int list \<Rightarrow> int set" where
  "slab_colors p slab = (\<lambda>i. colors_data p ! py_pos (colors_data p) i) ` set slab"

definition color_penalty :: "problem \<Rightarrow> int list \<Rightarrow> int" where
  "color_penalty p slab =
     (if int (card (slab_colors p slab)) > nb_colors_max_slab p
      then 1000000 * (int (card (slab_colors p slab)) - nb_colors_max_slab p)
      else 0)"

definition overflow_penalty :: "problem \<Rightarrow> int list \<Rightarrow> int" where
  "overflow_penalty p slab =
     (if slab_content p slab > max_size p
      then 1000000 * (slab_content p slab - max_size p)
      else 0)"

definition slab_waste :: "problem \<Rightarrow> int list \<Rightarrow> int" where
  "slab_waste p slab =
     (if slab_content p slab < int (length (waste_for_content p))
      then waste_for_content p ! py_pos (waste_for_content p) (slab_content p slab)
      else max_size p - slab_content p slab)"

text \<open>The flat penalty of the final check \<^verbatim>\<open>set(orders_in_candidate) != set(range(nb_orders))\<close>.\<close>

definition coverage_penalty :: "problem \<Rightarrow> int list list \<Rightarrow> int" where
  "coverage_penalty p candidate =
     (if set (concat candidate) \<noteq> {0..<nb_orders p} then 1000000 else 0)"

text \<open>The candidates the evaluator scores without an \<^verbatim>\<open>IndexError\<close>.\<close>

definition valid_candidate :: "problem \<Rightarrow> int list list \<Rightarrow> bool" where
  "valid_candidate p candidate \<longleftrightarrow>
     (\<forall>slab\<in>set candidate. \<forall>i\<in>set slab. valid_index (quantities_data p) i)"

subsection \<open>Two concrete instances\<close>

text \<open>
  The scenario of the specification: slab sizes \<open>[100]\<close>, one colour, the two orders
  \<open>(60, 1)\<close> and \<open>(50, 1)\<close>. The table has \<open>60 + 50 + 1 = 111\<close> entries.
\<close>

definition scenario_tokens :: "int list" where
  "scenario_tokens = [1, 100, 1, 2, 60, 1, 50, 1]"

definition scenario_problem :: problem where
  "scenario_problem =
     \<lparr>nb_slab_sizes = 1, slab_sizes = [100], max_size = 100,
      nb_colors = 1, nb_orders = 2, nb_slabs = 2,
      quantities_data = [60, 50], colors_data = [1, 1],
      sum_size_orders = 110,
      waste_for_content = 0 # map (\<lambda>c. 100 - c) [1..99] @ replicate 11 0,
      nb_colors_max_slab = 2\<rparr>"

text \<open>
  A small instance: slab sizes \<open>[3, 6]\<close>, three colours, the four orders \<open>(2, 1)\<close>,
  \<open>(3, 2)\<close>, \<open>(1, 3)\<close> and \<open>(2, 1)\<close>.
\<close>

definition example_tokens :: "int list" where
  "example_tokens = [2, 3, 6, 3, 4, 2, 1, 3, 2, 1, 3, 2, 1]"

definition example_problem :: problem where
  "example_problem =
     \<lparr>nb_slab_sizes = 2, slab_sizes = [3, 6], max_size = 6,
      nb_colors = 3, nb_orders = 4, nb_slabs = 4,
      quantities_data = [2, 3, 1, 2], colors_data = [1, 2, 3, 1],
      sum_size_orders = 8,
      waste_for_content = [0, 2, 1, 0, 2, 1, 0, 0, 0],
      nb_colors_max_slab = 2\<rparr>"

section \<open>The waste profile builder\<close>

subsection \<open>Both loops keep the length of the table; a returned table means ascending sizes\<close>

lemma fill_waste_length:
  "fill_waste w sz cs = Inr w' \<Longrightarrow> length w' = length w"
  by (induction cs arbitrary: w) (auto simp: py_setitem_def split: if_splits sum.splits)

lemma waste_loop_length:
  "waste_loop w prev xs = Inr w' \<Longrightarrow> length w' = length w"
  by (induction xs arbitrary: w prev) (auto split: if_splits sum.splits dest: fill_waste_length)

lemma waste_loop_sorted:
  "waste_loop w prev xs = Inr w' \<Longrightarrow> sorted (prev # xs)"
proof (induction xs arbitrary: w prev)
  case Nil
  then show ?case by simp
next
  case (Cons sz rest)
  from Cons.prems have le: "prev \<le> sz" by (simp split: if_splits)
  from Cons.prems obtain w1 where "waste_loop w1 sz rest = Inr w'"
    by (auto split: if_splits sum.splits)
  then have "sorted (sz # rest)" by (rule Cons.IH)
  with le show ?case by auto
qed

lemma fill_waste_error:
  "fill_waste w sz cs = Inl e \<Longrightarrow> e = IndexError"
  by (induction cs arbitrary: w) (auto simp: py_setitem_def split: if_splits sum.splits)

lemma waste_loop_error:
  "waste_loop w prev xs = Inl e \<Longrightarrow> e = SysExit 1 \<or> e = IndexError"
  by (induction xs arbitrary: w prev) (auto split: if_splits sum.splits dest: fill_waste_error)

lemma waste_loop_descending:
  "b < a \<Longrightarrow> waste_loop w prev (pre @ a # b # post) = waste_loop w prev (pre @ [a, b])"
proof (induction pre arbitrary: w prev)
  case Nil
  then show ?case by (simp split: sum.splits)
next
  case (Cons x pre)
  then show ?case by (simp split: sum.splits)
qed

text \<open>
  Claim C8. A size list with a descending adjacent pair \<open>a, b\<close> (\<open>b < a\<close>) never yields a
  table: the builder stops with \<^verbatim>\<open>sys.exit(1)\<close>, or earlier with an \<^verbatim>\<open>IndexError\<close> when a
  size before the pair does not fit the table. The sizes after the pair are never looked
  at: the result is that of the list cut right after the pair.
\<close>

theorem descending_pair_fails:
  assumes "b < a"
  shows "(pre_compute_waste_for_content (pre @ a # b # post) ub = Inl (SysExit 1)
          \<or> pre_compute_waste_for_content (pre @ a # b # post) ub = Inl IndexError)
       \<and> pre_compute_waste_for_content (pre @ a # b # post) ub
           = pre_compute_waste_for_content (pre @ [a, b]) ub"
proof -
  let ?r = "pre_compute_waste_for_content (pre @ a # b # post) ub"
  have "\<not> sorted (pre @ a # b # post)"
    using assms by (auto simp: sorted_append)
  then have "\<And>w. ?r \<noteq> Inr w"
    unfolding pre_compute_waste_for_content_def
    by (metis waste_loop_sorted sorted_wrt.simps(2) sorted_simps(2))
  then obtain e where e: "?r = Inl e" by (cases ?r) auto
  then have "e = SysExit 1 \<or> e = IndexError"
    unfolding pre_compute_waste_for_content_def by (rule waste_loop_error)
  moreover have "?r = pre_compute_waste_for_content (pre @ [a, b]) ub"
    unfolding pre_compute_waste_for_content_def by (rule waste_loop_descending [OF assms])
  ultimately show ?thesis using e by blast
qed

theorem descending_pair_fails_witness:
  "(30::int) < 50
   \<and> pre_compute_waste_for_content [50, 30] 100 = Inl (SysExit 1)
   \<and> pre_compute_waste_for_content [50, 30, 70] 100 = pre_compute_waste_for_content [50, 30] 100"
proof -
  have lt: "(30::int) < 50" by simp
  have r: "pre_compute_waste_for_content [50, 30] 100 = Inl (SysExit 1)" by code_simp
  from descending_pair_fails [OF lt, of "[]" "[70]" 100]
  have "pre_compute_waste_for_content [50, 30, 70] 100 = pre_compute_waste_for_content [50, 30] 100"
    by simp
  with lt r show ?thesis by simp
qed

subsection \<open>Adjacent equal sizes\<close>

lemma waste_loop_duplicate:
  "waste_loop w prev (pre @ s # s # post) = waste_loop w prev (pre @ s # post)"
proof (induction pre arbitrary: w prev)
  case Nil
  show ?case by (auto simp: py_range_def split: sum.splits)
next
  case (Cons x pre)
  then show ?case by (simp split: sum.splits)
qed

text \<open>
  The test \<^verbatim>\<open>size < prev_size\<close> is strict and \<^verbatim>\<open>range(s + 1, s)\<close> is empty, so a repeated
  adjacent size changes nothing: the builder returns for the list with the duplicate
  exactly what it returns for the list without it, table or error.
\<close>

theorem duplicate_size_same_result:
  "pre_compute_waste_for_content (pre @ s # s # post) ub
     = pre_compute_waste_for_content (pre @ s # post) ub"
  unfolding pre_compute_waste_for_content_def by (rule waste_loop_duplicate)

text \<open>
  Claim C10. The claim promises that construction succeeds for every non-strictly
  ascending size list. With the sizes \<open>[5, 5]\<close> and the upper bound \<open>2\<close> the table has three
  entries and the first round writes the indices 1 to 4: the builder raises
  \<^verbatim>\<open>IndexError\<close> at index 3. The duplicate is not the cause (see
  \<open>duplicate_size_same_result\<close>); the cause is the unguarded write of the inner loop.
\<close>

theorem duplicate_sizes_index_error:
  "sorted [5, 5 :: int] \<and> pre_compute_waste_for_content [5, 5] 2 = Inl IndexError"
  by code_simp

subsection \<open>The entries of a returned table\<close>

lemma fill_waste_nth:
  "fill_waste w sz cs = Inr w' \<Longrightarrow> \<forall>c\<in>set cs. 0 \<le> c \<Longrightarrow> i < length w \<Longrightarrow>
     w' ! i = (if int i \<in> set cs then sz - int i else w ! i)"
proof (induction cs arbitrary: w)
  case Nil
  then show ?case by simp
next
  case (Cons c rest)
  from Cons.prems(2) have c0: "0 \<le> c" by simp
  from Cons.prems(1) have v: "valid_index w c"
    and r: "fill_waste (w[py_pos w c := sz - c]) sz rest = Inr w'"
    by (auto simp: py_setitem_def split: if_splits)
  have pos: "py_pos w c = nat c" using c0 by (simp add: py_pos_def)
  have "w' ! i = (if int i \<in> set rest then sz - int i else (w[nat c := sz - c]) ! i)"
    using Cons.IH [OF r [unfolded pos]] Cons.prems(2,3) by simp
  moreover have "(w[nat c := sz - c]) ! i = (if int i = c then sz - c else w ! i)"
    using Cons.prems(3) c0 by (auto simp: nth_list_update)
  ultimately show ?case by auto
qed

lemma fill_waste_ok:
  "\<forall>c\<in>set cs. 0 \<le> c \<and> c < int (length w) \<Longrightarrow> \<exists>w'. fill_waste w sz cs = Inr w'"
  by (induction cs arbitrary: w) (auto simp: py_setitem_def valid_index_def)

lemma waste_loop_nth:
  "waste_loop w prev xs = Inr w' \<Longrightarrow> 0 \<le> prev \<Longrightarrow> i < length w \<Longrightarrow>
     w' ! i = (if prev < int i
               then (case find (\<lambda>s. int i \<le> s) xs of
                       None \<Rightarrow> w ! i
                     | Some s \<Rightarrow> if s = int i then w ! i else s - int i)
               else w ! i)"
proof (induction xs arbitrary: w prev)
  case Nil
  then show ?case by simp
next
  case (Cons sz rest)
  from Cons.prems(1) have le: "prev \<le> sz" by (simp split: if_splits)
  from Cons.prems(1) obtain w1 where
    f: "fill_waste w sz (py_range (prev + 1) sz) = Inr w1" and
    l: "waste_loop w1 sz rest = Inr w'"
    by (auto split: if_splits sum.splits)
  have len: "length w1 = length w" using f by (rule fill_waste_length)
  have w1: "w1 ! i = (if prev < int i \<and> int i < sz then sz - int i else w ! i)"
    using fill_waste_nth [OF f _ Cons.prems(3)] Cons.prems(2) by (auto simp: py_range_def)
  have "w' ! i = (if sz < int i
               then (case find (\<lambda>s. int i \<le> s) rest of
                       None \<Rightarrow> w1 ! i
                     | Some s \<Rightarrow> if s = int i then w1 ! i else s - int i)
               else w1 ! i)"
    using Cons.IH [OF l] le Cons.prems(2,3) len by simp
  then show ?case using w1 le by (auto split: option.splits)
qed

lemma find_sorted_Min:
  "sorted xs \<Longrightarrow> find (\<lambda>s. c \<le> s) xs = Some s \<Longrightarrow> s = Min {t \<in> set xs. c \<le> t}"
proof (induction xs)
  case Nil
  then show ?case by simp
next
  case (Cons x xs)
  show ?case
  proof (cases "c \<le> x")
    case True
    then have "s = x" using Cons.prems(2) by simp
    moreover have "Min {t \<in> set (x # xs). c \<le> t} = x"
      using True Cons.prems(1) by (intro Min_eqI) auto
    ultimately show ?thesis by simp
  next
    case False
    then have "{t \<in> set (x # xs). c \<le> t} = {t \<in> set xs. c \<le> t}" by auto
    then show ?thesis using Cons False by simp
  qed
qed

lemma waste_loop_ok:
  "sorted (prev # xs) \<Longrightarrow> 0 \<le> prev \<Longrightarrow> \<forall>s\<in>set xs. s \<le> int (length w) \<Longrightarrow>
     \<exists>w'. waste_loop w prev xs = Inr w'"
proof (induction xs arbitrary: w prev)
  case Nil
  then show ?case by simp
next
  case (Cons sz rest)
  have "\<forall>c\<in>set (py_range (prev + 1) sz). 0 \<le> c \<and> c < int (length w)"
    using Cons.prems by (auto simp: py_range_def)
  then obtain w1 where f: "fill_waste w sz (py_range (prev + 1) sz) = Inr w1"
    using fill_waste_ok by blast
  have len: "length w1 = length w" using f by (rule fill_waste_length)
  have "\<exists>w'. waste_loop w1 sz rest = Inr w'"
    using Cons.prems len by (intro Cons.IH) auto
  then show ?case using f Cons.prems(1) by auto
qed

text \<open>
  Whenever the builder returns a table, the table has \<open>upper_bound + 1\<close> entries; the
  entry at \<open>c\<close> is 0 when \<open>c\<close> is 0, is a slab size or lies above every slab size, and is
  the distance to the smallest slab size above \<open>c\<close> otherwise.
\<close>

theorem waste_table_entries:
  assumes "pre_compute_waste_for_content sizes ub = Inr w"
  shows "length w = nat (ub + 1)
       \<and> (\<forall>c. 0 \<le> c \<and> c \<le> ub \<longrightarrow>
            w ! nat c = (if c = 0 \<or> c \<in> set sizes \<or> (\<forall>s\<in>set sizes. s < c) then 0
                         else Min {s \<in> set sizes. c \<le> s} - c))"
proof (intro conjI allI impI)
  let ?w0 = "replicate (nat (ub + 1)) (0::int)"
  from assms have l: "waste_loop ?w0 0 sizes = Inr w"
    by (simp add: pre_compute_waste_for_content_def)
  from waste_loop_length [OF l] show "length w = nat (ub + 1)" by simp
  from waste_loop_sorted [OF l] have srt: "sorted sizes" by simp
  fix c :: int
  assume c: "0 \<le> c \<and> c \<le> ub"
  then have i: "nat c < length ?w0" by simp
  have nth: "w ! nat c = (if 0 < c
               then (case find (\<lambda>s. c \<le> s) sizes of
                       None \<Rightarrow> 0
                     | Some s \<Rightarrow> if s = c then 0 else s - c)
               else 0)"
    using waste_loop_nth [OF l _ i] c by (auto split: option.splits)
  show "w ! nat c = (if c = 0 \<or> c \<in> set sizes \<or> (\<forall>s\<in>set sizes. s < c) then 0
                         else Min {s \<in> set sizes. c \<le> s} - c)"
  proof (cases "find (\<lambda>s. c \<le> s) sizes")
    case None
    then have "\<forall>s\<in>set sizes. s < c" by (auto simp: find_None_iff)
    then show ?thesis using nth None by simp
  next
    case (Some s)
    then have m: "s = Min {t \<in> set sizes. c \<le> t}" using srt by (intro find_sorted_Min)
    from Some have s: "s \<in> set sizes" "c \<le> s" by (auto simp: find_Some_iff)
    show ?thesis
    proof (cases "c \<in> set sizes")
      case True
      then have "Min {t \<in> set sizes. c \<le> t} = c" by (intro Min_eqI) auto
      then show ?thesis using nth Some m True by simp
    next
      case False
      then have "s \<noteq> c" using s by auto
      moreover have "\<not> (\<forall>s\<in>set sizes. s < c)" using s by force
      ultimately show ?thesis using nth Some m False c by auto
    qed
  qed
qed

text \<open>
  The builder returns a table for ascending non-negative sizes that are all at most
  \<open>upper_bound + 1\<close>.
\<close>

theorem waste_table_built:
  assumes "sorted sizes" and "\<forall>s\<in>set sizes. 0 \<le> s \<and> s \<le> ub + 1"
  shows "\<exists>w. pre_compute_waste_for_content sizes ub = Inr w"
proof (cases sizes)
  case Nil
  then show ?thesis by (simp add: pre_compute_waste_for_content_def)
next
  case (Cons a list)
  then have "0 \<le> ub + 1" using assms(2) by force
  then show ?thesis
  unfolding pre_compute_waste_for_content_def
  using assms by (intro waste_loop_ok) auto
qed

text \<open>
  Claim C3. The claim promises a table for every ascending list of positive sizes and
  every non-negative upper bound. The inner loop writes every index below the slab size,
  whatever the length of the table: with the sizes \<open>[5]\<close> and the upper bound \<open>2\<close> the write
  at index 3 raises \<^verbatim>\<open>IndexError\<close>, and so does the constructor on the instance with one
  slab size 5 and one order of quantity 2.
\<close>

theorem builder_index_error:
  "pre_compute_waste_for_content [5] 2 = Inl IndexError
   \<and> init [1, 5, 1, 1, 2, 1] = Inl IndexError"
  by code_simp

section \<open>The constructor\<close>

lemma read_orders_result:
  "read_orders n qs cs acc it = Inr (qs', cs', acc') \<Longrightarrow>
     length qs' = length qs + n \<and> length cs' = length cs + n
     \<and> acc' - sum_list qs' = acc - sum_list qs"
proof (induction n arbitrary: qs cs acc it)
  case 0
  then show ?case by simp
next
  case (Suc n)
  from Suc.prems obtain qty col it2 where
    "read_orders n (qs @ [qty]) (cs @ [col]) (acc + qty) it2 = Inr (qs', cs', acc')"
    by (auto split: sum.splits prod.splits)
  from Suc.IH [OF this] show ?case by simp
qed

lemma init_facts:
  assumes "init tokens = Inr p"
  shows "length (quantities_data p) = nat (nb_orders p)"
    and "length (colors_data p) = nat (nb_orders p)"
    and "sum_size_orders p = sum_list (quantities_data p)"
    and "pre_compute_waste_for_content (slab_sizes p) (sum_size_orders p) = Inr (waste_for_content p)"
    and "nb_colors_max_slab p = 2"
    and "slab_sizes p \<noteq> []"
    and "max_size p = last (slab_sizes p)"
proof -
  from assms obtain n_sizes it1 sizes it2 largest n_colors it3 n_orders it4 qs cs total waste where
    a: "read_sizes (nat n_sizes) it1 = Inr (sizes, it2)"
       "py_getitem sizes (- 1) = Inr largest"
       "read_orders (nat n_orders) [] [] 0 it4 = Inr (qs, cs, total)"
       "pre_compute_waste_for_content sizes total = Inr waste"
       "p = \<lparr>nb_slab_sizes = n_sizes, slab_sizes = sizes, max_size = largest,
               nb_colors = n_colors, nb_orders = n_orders, nb_slabs = n_orders,
               quantities_data = qs, colors_data = cs,
               sum_size_orders = total, waste_for_content = waste,
               nb_colors_max_slab = 2\<rparr>"
    unfolding init_def by (auto split: sum.splits prod.splits)
  from read_orders_result [OF a(3)] a(5)
  show "length (quantities_data p) = nat (nb_orders p)"
    and "length (colors_data p) = nat (nb_orders p)"
    and "sum_size_orders p = sum_list (quantities_data p)"
    by simp_all
  from a(4,5) show "pre_compute_waste_for_content (slab_sizes p) (sum_size_orders p) = Inr (waste_for_content p)"
    by simp
  from a(5) show "nb_colors_max_slab p = 2" by simp
  from a(2) have ne: "sizes \<noteq> []" by (auto simp: py_getitem_def valid_index_def split: if_splits)
  then show "slab_sizes p \<noteq> []" using a(5) by simp
  from a(2) ne have "largest = last sizes"
    by (auto simp: py_getitem_def valid_index_def py_pos_def last_conv_nth nat_diff_distrib' split: if_splits)
  then show "max_size p = last (slab_sizes p)" using a(5) by simp
qed


lemma init_table_length:
  assumes "init tokens = Inr p" and "\<forall>q\<in>set (quantities_data p). 0 \<le> q"
  shows "int (length (waste_for_content p)) = sum_size_orders p + 1"
proof -
  have "0 \<le> sum_size_orders p"
    using init_facts(3) [OF assms(1)] assms(2) by (simp add: sum_list_nonneg)
  moreover have "length (waste_for_content p) = nat (sum_size_orders p + 1)"
    using waste_table_entries [OF init_facts(4) [OF assms(1)]] by simp
  ultimately show ?thesis by simp
qed

lemma init_scenario: "init scenario_tokens = Inr scenario_problem"
  by code_simp

lemma init_example: "init example_tokens = Inr example_problem"
  by code_simp

section \<open>The evaluator\<close>

subsection \<open>The loop as a sum over the slabs\<close>

lemma getitems_valid:
  "\<forall>i\<in>set slab. valid_index xs i \<Longrightarrow> getitems xs slab = Inr (map (\<lambda>i. xs ! py_pos xs i) slab)"
  by (induction slab) (auto simp: py_getitem_def)

lemma py_range_set: "set (py_range 0 n) = {0..<n}"
  by (auto simp: py_range_def)

lemma process_slab_valid:
  assumes "\<forall>i\<in>set slab. valid_index (colors_data p) i"
      and "\<forall>i\<in>set slab. valid_index (quantities_data p) i"
      and "0 \<le> slab_content p slab"
  shows "process_slab p st slab =
           Inr (st\<lparr>penalty := penalty st + (if slab = [] then 0 else color_penalty p slab + overflow_penalty p slab),
                   used_slab_waste := used_slab_waste st + (if slab = [] then 0 else slab_waste p slab),
                   orders_in_candidate := orders_in_candidate st @ slab\<rparr>)"
proof (cases "slab = []")
  case True
  then show ?thesis by (simp add: process_slab_def)
next
  case False
  have c: "getitems (colors_data p) slab = Inr (map (\<lambda>i. colors_data p ! py_pos (colors_data p) i) slab)"
    using assms(1) by (rule getitems_valid)
  have q: "getitems (quantities_data p) slab = Inr (map (\<lambda>i. quantities_data p ! py_pos (quantities_data p) i) slab)"
    using assms(2) by (rule getitems_valid)
  have cs: "set (map (\<lambda>i. colors_data p ! py_pos (colors_data p) i) slab) = slab_colors p slab"
    by (simp add: slab_colors_def)
  have qs: "sum_list (map (\<lambda>i. quantities_data p ! py_pos (quantities_data p) i) slab) = slab_content p slab"
    by (simp add: slab_content_def)
  have w: "(if slab_content p slab < int (length (waste_for_content p))
               then py_getitem (waste_for_content p) (slab_content p slab)
               else Inr (max_size p - slab_content p slab)) = Inr (slab_waste p slab)"
    using assms(3) by (simp add: slab_waste_def py_getitem_def valid_index_def)
  show ?thesis
    using False unfolding process_slab_def c q Let_def sum.case cs qs w
    by (simp add: color_penalty_def overflow_penalty_def)
qed

lemma eval_loop_valid:
  assumes "\<forall>slab\<in>set candidate. (\<forall>i\<in>set slab. valid_index (colors_data p) i)
              \<and> (\<forall>i\<in>set slab. valid_index (quantities_data p) i) \<and> 0 \<le> slab_content p slab"
  shows "eval_loop p st candidate =
           Inr \<lparr>penalty = penalty st
                   + (\<Sum>slab\<leftarrow>filter (\<lambda>s. s \<noteq> []) candidate. color_penalty p slab + overflow_penalty p slab),
                used_slab_waste = used_slab_waste st
                   + (\<Sum>slab\<leftarrow>filter (\<lambda>s. s \<noteq> []) candidate. slab_waste p slab),
                orders_in_candidate = orders_in_candidate st @ concat candidate\<rparr>"
  using assms
proof (induction candidate arbitrary: st)
  case Nil
  then show ?case by simp
next
  case (Cons slab rest)
  have "process_slab p st slab =
           Inr (st\<lparr>penalty := penalty st + (if slab = [] then 0 else color_penalty p slab + overflow_penalty p slab),
                   used_slab_waste := used_slab_waste st + (if slab = [] then 0 else slab_waste p slab),
                   orders_in_candidate := orders_in_candidate st @ slab\<rparr>)"
    using Cons.prems by (intro process_slab_valid) auto
  moreover have "\<forall>slab\<in>set rest. (\<forall>i\<in>set slab. valid_index (colors_data p) i)
              \<and> (\<forall>i\<in>set slab. valid_index (quantities_data p) i) \<and> 0 \<le> slab_content p slab"
    using Cons.prems by simp
  ultimately show ?case
    using Cons.IH by simp
qed

lemma slab_content_nonneg:
  assumes "\<forall>q\<in>set (quantities_data p). 0 \<le> q"
      and "\<forall>i\<in>set slab. valid_index (quantities_data p) i"
  shows "0 \<le> slab_content p slab"
  unfolding slab_content_def
proof (rule sum_list_nonneg)
  fix x assume "x \<in> set (map (\<lambda>i. quantities_data p ! py_pos (quantities_data p) i) slab)"
  then obtain i where i: "i \<in> set slab" and x: "x = quantities_data p ! py_pos (quantities_data p) i"
    by auto
  from i assms(2) have "py_pos (quantities_data p) i < length (quantities_data p)"
    by (auto simp: valid_index_def py_pos_def)
  then show "0 \<le> x" using assms(1) x by simp
qed

text \<open>
  For a constructed instance with non-negative quantities and a candidate whose indices
  Python accepts, the evaluator returns the waste of the nonempty slabs, their colour and
  capacity penalties, and the coverage penalty.
\<close>

lemma evaluate_solution_sum:
  assumes "init tokens = Inr p"
      and "\<forall>q\<in>set (quantities_data p). 0 \<le> q"
      and "valid_candidate p candidate"
  shows "evaluate_solution p candidate =
           Inr ((\<Sum>slab\<leftarrow>filter (\<lambda>s. s \<noteq> []) candidate. slab_waste p slab)
                + (\<Sum>slab\<leftarrow>filter (\<lambda>s. s \<noteq> []) candidate. color_penalty p slab + overflow_penalty p slab)
                + coverage_penalty p candidate)"
proof -
  have len: "length (colors_data p) = length (quantities_data p)"
    using init_facts(1,2) [OF assms(1)] by simp
  have "\<forall>slab\<in>set candidate. (\<forall>i\<in>set slab. valid_index (colors_data p) i)
              \<and> (\<forall>i\<in>set slab. valid_index (quantities_data p) i) \<and> 0 \<le> slab_content p slab"
    using assms(3) slab_content_nonneg [OF assms(2)] len
    by (auto simp: valid_candidate_def valid_index_def)
  from eval_loop_valid [OF this] show ?thesis
    by (simp add: evaluate_solution_def coverage_penalty_def py_range_set)
qed

lemma distinct_content_le_sum:
  fixes qs :: "int list"
  assumes "distinct slab" and "\<forall>i\<in>set slab. 0 \<le> i \<and> i < int (length qs)"
      and "\<forall>q\<in>set qs. 0 \<le> q"
  shows "(\<Sum>i\<leftarrow>slab. qs ! nat i) \<le> sum_list qs"
proof -
  have inj: "inj_on nat (set slab)"
  proof (rule inj_onI)
    fix x y assume xy: "x \<in> set slab" "y \<in> set slab" "nat x = nat y"
    then have "0 \<le> x" "0 \<le> y" using assms(2) by auto
    with xy(3) show "x = y" by simp
  qed
  have "(\<Sum>i\<leftarrow>slab. qs ! nat i) = (\<Sum>i\<in>set slab. qs ! nat i)"
    using assms(1) by (rule sum_list_distinct_conv_sum_set)
  also have "\<dots> = (\<Sum>n\<in>nat ` set slab. qs ! n)"
    using inj by (simp add: sum.reindex)
  also have "\<dots> \<le> (\<Sum>n\<in>{0..<length qs}. qs ! n)"
  proof (rule sum_mono2)
    show "finite {0..<length qs}" by simp
    show "nat ` set slab \<subseteq> {0..<length qs}" using assms(2) by auto
    fix b assume "b \<in> {0..<length qs} - nat ` set slab"
    then show "0 \<le> qs ! b" using assms(3) by simp
  qed
  also have "\<dots> = sum_list qs" by (simp add: sum_list_sum_nth)
  finally show ?thesis .
qed

lemma in_range_content:
  assumes "\<forall>i\<in>set slab. 0 \<le> i \<and> i < int (length (quantities_data p))"
  shows "slab_content p slab = (\<Sum>i\<leftarrow>slab. quantities_data p ! nat i)"
  unfolding slab_content_def using assms
  by (intro arg_cong [where f = sum_list] map_cong refl) (auto simp: py_pos_def)








lemma in_range_valid:
  assumes "init tokens = Inr p"
      and "\<forall>slab\<in>set candidate. \<forall>i\<in>set slab. 0 \<le> i \<and> i < nb_orders p"
  shows "valid_candidate p candidate"
  unfolding valid_candidate_def valid_index_def
proof (intro ballI)
  fix slab i assume "slab \<in> set candidate" "i \<in> set slab"
  then have "0 \<le> i \<and> i < nb_orders p" using assms(2) by blast
  then show "- int (length (quantities_data p)) \<le> i \<and> i < int (length (quantities_data p))"
    using init_facts(1) [OF assms(1)] by simp
qed

lemma distinct_slab_in_table:
  assumes "init tokens = Inr p"
      and "\<forall>q\<in>set (quantities_data p). 0 \<le> q"
      and "\<forall>i\<in>set slab. 0 \<le> i \<and> i < nb_orders p"
      and "distinct slab"
  shows "slab_content p slab = (\<Sum>i\<leftarrow>slab. quantities_data p ! nat i)"
    and "0 \<le> slab_content p slab"
    and "slab_content p slab \<le> sum_size_orders p"
    and "slab_content p slab < int (length (waste_for_content p))"
    and "slab_waste p slab = waste_for_content p ! nat (slab_content p slab)"
proof -
  have r: "\<forall>i\<in>set slab. 0 \<le> i \<and> i < int (length (quantities_data p))"
    using assms(3) init_facts(1) [OF assms(1)] by auto
  then have v: "\<forall>i\<in>set slab. valid_index (quantities_data p) i"
    by (auto simp: valid_index_def)
  show c: "slab_content p slab = (\<Sum>i\<leftarrow>slab. quantities_data p ! nat i)"
    using r by (rule in_range_content)
  show n: "0 \<le> slab_content p slab"
    using assms(2) v by (rule slab_content_nonneg)
  show le: "slab_content p slab \<le> sum_size_orders p"
    unfolding c init_facts(3) [OF assms(1)]
    using assms(4) r assms(2) by (rule distinct_content_le_sum)
  show lt: "slab_content p slab < int (length (waste_for_content p))"
    using le init_table_length [OF assms(1,2)] by simp
  show "slab_waste p slab = waste_for_content p ! nat (slab_content p slab)"
    using lt n by (simp add: slab_waste_def py_pos_def)
qed

subsection \<open>The scenario of the specification\<close>

text \<open>
  Claim C1, as stated, fails: on the instance with slab sizes \<open>[100]\<close> and the orders
  \<open>(60, 1)\<close>, \<open>(50, 1)\<close> the candidate \<open>[[0, 1]]\<close> does not cost 9,999,990.
\<close>

theorem spec_scenario_cost_counterexample:
  "init scenario_tokens = Inr scenario_problem
   \<and> evaluate_solution scenario_problem [[0, 1]] \<noteq> Inr 9999990"
  by code_simp

text \<open>
  Claim C1, amended. The content 110 exceeds \<open>max_size = 100\<close>, which adds the penalty
  \<open>1,000,000 \<times> 10\<close>. The table has \<open>110 + 1 = 111\<close> entries, so the content 110 is inside
  the table, the fallback branch is not taken, and the waste is the entry at 110, which
  is 0. The candidate costs 10,000,000.
\<close>

theorem spec_scenario_cost:
  "init scenario_tokens = Inr scenario_problem
   \<and> slab_content scenario_problem [0, 1] = 110
   \<and> max_size scenario_problem = 100
   \<and> overflow_penalty scenario_problem [0, 1] = 1000000 * 10
   \<and> length (waste_for_content scenario_problem) = 111
   \<and> py_getitem (waste_for_content scenario_problem) 110 = Inr 0
   \<and> slab_waste scenario_problem [0, 1] = 0
   \<and> evaluate_solution scenario_problem [[0, 1]] = Inr 10000000"
  by code_simp

subsection \<open>Coverage\<close>

text \<open>
  Claim C2. The final check compares sets, so an order that occurs twice is not seen: on
  the small instance the candidate \<open>[[0, 1], [2, 3], [0]]\<close> repeats order 0, covers every
  order, and costs 2, the waste of its three slabs, with no coverage penalty.
\<close>

theorem duplicate_order_not_penalised:
  "init example_tokens = Inr example_problem
   \<and> \<not> distinct (concat [[0, 1], [2, 3], [0 :: int]])
   \<and> set (concat [[0, 1], [2, 3], [0]]) = {0..<nb_orders example_problem}
   \<and> evaluate_solution example_problem [[0, 1], [2, 3], [0]] = Inr 2
   \<and> slab_waste example_problem [0, 1] + slab_waste example_problem [2, 3]
       + slab_waste example_problem [0] = 2"
  by code_simp



subsection \<open>Feasible candidates\<close>

text \<open>
  Claim C4. For a candidate that holds every order index \<open>0, ..., nb_orders - 1\<close> exactly
  once, whose slabs all have a content of at most \<open>max_size\<close> and at most 2 distinct
  colours, the evaluator returns the sum of the table entries at the contents of the
  nonempty slabs, without any penalty.
\<close>

theorem feasible_candidate_cost:
  assumes "init tokens = Inr p"
      and "\<forall>q\<in>set (quantities_data p). 0 \<le> q"
      and "distinct (concat candidate)"
      and "set (concat candidate) = {0..<nb_orders p}"
      and "\<forall>slab\<in>set candidate. slab_content p slab \<le> max_size p
                                  \<and> card (slab_colors p slab) \<le> 2"
  shows "evaluate_solution p candidate =
           Inr (\<Sum>slab\<leftarrow>filter (\<lambda>s. s \<noteq> []) candidate.
                  waste_for_content p ! nat (slab_content p slab))"
proof -
  have r: "\<forall>slab\<in>set candidate. \<forall>i\<in>set slab. 0 \<le> i \<and> i < nb_orders p"
    using assms(4) by auto
  have v: "valid_candidate p candidate" using assms(1) r by (rule in_range_valid)
  have w: "(\<Sum>slab\<leftarrow>filter (\<lambda>s. s \<noteq> []) candidate. slab_waste p slab)
         = (\<Sum>slab\<leftarrow>filter (\<lambda>s. s \<noteq> []) candidate. waste_for_content p ! nat (slab_content p slab))"
  proof (intro arg_cong [where f = sum_list] map_cong refl)
    fix slab assume "slab \<in> set (filter (\<lambda>s. s \<noteq> []) candidate)"
    then have s: "slab \<in> set candidate" by simp
    then have "distinct slab" using assms(3) by (auto simp: distinct_concat_iff)
    moreover have "\<forall>i\<in>set slab. 0 \<le> i \<and> i < nb_orders p" using r s by simp
    ultimately show "slab_waste p slab = waste_for_content p ! nat (slab_content p slab)"
      using distinct_slab_in_table(5) [OF assms(1,2)] by simp
  qed
  have "(\<Sum>slab\<leftarrow>filter (\<lambda>s. s \<noteq> []) candidate. color_penalty p slab + overflow_penalty p slab)
          = (\<Sum>slab\<leftarrow>filter (\<lambda>s. s \<noteq> []) candidate. 0)"
  proof (intro arg_cong [where f = sum_list] map_cong refl)
    fix slab assume "slab \<in> set (filter (\<lambda>s. s \<noteq> []) candidate)"
    then have "slab_content p slab \<le> max_size p \<and> card (slab_colors p slab) \<le> 2"
      using assms(5) by simp
    then show "color_penalty p slab + overflow_penalty p slab = 0"
      using init_facts(5) [OF assms(1)] by (simp add: color_penalty_def overflow_penalty_def)
  qed
  then have pen: "(\<Sum>slab\<leftarrow>filter (\<lambda>s. s \<noteq> []) candidate. color_penalty p slab + overflow_penalty p slab) = 0"
    by simp
  have cov: "coverage_penalty p candidate = 0"
    using assms(4) by (simp add: coverage_penalty_def)
  show ?thesis
    using evaluate_solution_sum [OF assms(1,2) v] w pen cov by simp
qed

theorem feasible_candidate_cost_witness:
  "init example_tokens = Inr example_problem
   \<and> list_all (\<lambda>q. 0 \<le> q) (quantities_data example_problem)
   \<and> distinct (concat [[0], [1, 2], [3], [] :: int list])
   \<and> set (concat [[0], [1, 2], [3], []]) = {0..<nb_orders example_problem}
   \<and> list_all (\<lambda>slab. slab_content example_problem slab \<le> max_size example_problem
                        \<and> card (slab_colors example_problem slab) \<le> 2)
        [[0], [1, 2], [3], []]
   \<and> evaluate_solution example_problem [[0], [1, 2], [3], []] = Inr 4"
proof -
  have h1: "init example_tokens = Inr example_problem" by code_simp
  have h2: "\<forall>q\<in>set (quantities_data example_problem). 0 \<le> q" by code_simp
  have h3: "distinct (concat [[0], [1, 2], [3], [] :: int list])" by code_simp
  have h4: "set (concat [[0], [1, 2], [3], []]) = {0..<nb_orders example_problem}" by code_simp
  have h5: "\<forall>slab\<in>set [[0], [1, 2], [3], []].
         slab_content example_problem slab \<le> max_size example_problem
         \<and> card (slab_colors example_problem slab) \<le> 2" by code_simp
  have v: "(\<Sum>slab\<leftarrow>filter (\<lambda>s. s \<noteq> []) [[0], [1, 2], [3], []].
              waste_for_content example_problem ! nat (slab_content example_problem slab)) = 4"
    by code_simp
  from feasible_candidate_cost [OF h1 h2 h3 h4 h5] v
  have "evaluate_solution example_problem [[0], [1, 2], [3], []] = Inr 4" by (simp only:)
  with h1 h2 h3 h4 h5 show ?thesis by (simp add: list_all_iff)
qed

subsection \<open>Capacity and colour penalties\<close>





subsection \<open>The fallback branch\<close>

text \<open>
  Claim C9. For a candidate whose indices all lie in \<open>0, ..., nb_orders - 1\<close> and that
  holds no index twice, the content that the evaluator computes for a slab is at most
  \<^verbatim>\<open>sum_size_orders\<close> and below the length of the table: the test
  \<^verbatim>\<open>content < len(self.waste_for_content)\<close> succeeds, the waste is the table entry, and
  the fallback \<^verbatim>\<open>max_size - content\<close> is not reached.
\<close>

theorem fallback_unreachable:
  assumes "init tokens = Inr p"
      and "\<forall>q\<in>set (quantities_data p). 0 \<le> q"
      and "\<forall>slab\<in>set candidate. \<forall>i\<in>set slab. 0 \<le> i \<and> i < nb_orders p"
      and "distinct (concat candidate)"
  shows "\<forall>slab\<in>set candidate.
           getitems (quantities_data p) slab = Inr (map (\<lambda>i. quantities_data p ! nat i) slab)
         \<and> slab_content p slab = (\<Sum>i\<leftarrow>slab. quantities_data p ! nat i)
         \<and> 0 \<le> slab_content p slab
         \<and> slab_content p slab \<le> sum_size_orders p
         \<and> slab_content p slab < int (length (waste_for_content p))
         \<and> slab_waste p slab = waste_for_content p ! nat (slab_content p slab)"
proof
  fix slab assume s: "slab \<in> set candidate"
  then have r: "\<forall>i\<in>set slab. 0 \<le> i \<and> i < nb_orders p" using assms(3) by simp
  have d: "distinct slab" using assms(4) s by (auto simp: distinct_concat_iff)
  have v: "\<forall>i\<in>set slab. valid_index (quantities_data p) i"
    using r init_facts(1) [OF assms(1)] by (auto simp: valid_index_def)
  have "getitems (quantities_data p) slab
          = Inr (map (\<lambda>i. quantities_data p ! py_pos (quantities_data p) i) slab)"
    using v by (rule getitems_valid)
  moreover have "map (\<lambda>i. quantities_data p ! py_pos (quantities_data p) i) slab
          = map (\<lambda>i. quantities_data p ! nat i) slab"
    using r by (intro map_cong refl) (auto simp: py_pos_def)
  ultimately have g: "getitems (quantities_data p) slab
          = Inr (map (\<lambda>i. quantities_data p ! nat i) slab)" by simp
  show "getitems (quantities_data p) slab = Inr (map (\<lambda>i. quantities_data p ! nat i) slab)
         \<and> slab_content p slab = (\<Sum>i\<leftarrow>slab. quantities_data p ! nat i)
         \<and> 0 \<le> slab_content p slab
         \<and> slab_content p slab \<le> sum_size_orders p
         \<and> slab_content p slab < int (length (waste_for_content p))
         \<and> slab_waste p slab = waste_for_content p ! nat (slab_content p slab)"
    using g distinct_slab_in_table [OF assms(1,2) r d] by simp
qed

theorem fallback_unreachable_witness:
  "init example_tokens = Inr example_problem
   \<and> list_all (\<lambda>q. 0 \<le> q) (quantities_data example_problem)
   \<and> list_all (list_all (\<lambda>i. 0 \<le> i \<and> i < nb_orders example_problem)) [[0, 1], [2, 3]]
   \<and> distinct (concat [[0, 1], [2, 3 :: int]])
   \<and> slab_content example_problem [0, 1] < int (length (waste_for_content example_problem))
   \<and> slab_waste example_problem [0, 1]
       = waste_for_content example_problem ! nat (slab_content example_problem [0, 1])"
proof -
  have h1: "init example_tokens = Inr example_problem" by code_simp
  have h2: "\<forall>q\<in>set (quantities_data example_problem). 0 \<le> q" by code_simp
  have h3: "\<forall>slab\<in>set [[0, 1], [2, 3]]. \<forall>i\<in>set slab. 0 \<le> i \<and> i < nb_orders example_problem"
    by code_simp
  have h4: "distinct (concat [[0, 1], [2, 3 :: int]])" by code_simp
  from fallback_unreachable [OF h1 h2 h3 h4]
  have "slab_content example_problem [0, 1] < int (length (waste_for_content example_problem))
      \<and> slab_waste example_problem [0, 1]
          = waste_for_content example_problem ! nat (slab_content example_problem [0, 1])"
    by simp
  with h1 h2 h3 h4 show ?thesis by (simp add: list_all_iff)
qed

end
